theory Spec2Isabelle
  imports Main "HOL-Library.Word" "HOL-Library.Sublist"
begin

section \<open>Levels and the static lookup tables\<close>

text \<open>
  \<^verbatim>\<open>type Level int\<close> with the constants \<^verbatim>\<open>DEBUG .. PANIC\<close> numbered by \<^verbatim>\<open>iota\<close>.
  A level is any integer: only seven of them have a name.
\<close>

type_synonym Level = int

definition DEBUG :: Level where "DEBUG = 0"
definition INFO :: Level where "INFO = 1"
definition WARN :: Level where "WARN = 2"
definition ERROR :: Level where "ERROR = 3"
definition CRITICAL :: Level where "CRITICAL = 4"
definition FATAL :: Level where "FATAL = 5"
definition PANIC :: Level where "PANIC = 6"

text \<open>The colour escape sequences; \<^verbatim>\<open>\033\<close> is the byte 0x1B.\<close>

definition colorReset :: string where "colorReset = CHR 0x1B # ''[0m''"
definition colorRed :: string where "colorRed = CHR 0x1B # ''[31m''"
definition colorGreen :: string where "colorGreen = CHR 0x1B # ''[32m''"
definition colorYellow :: string where "colorYellow = CHR 0x1B # ''[33m''"
definition colorBlue :: string where "colorBlue = CHR 0x1B # ''[34m''"
definition colorPurple :: string where "colorPurple = CHR 0x1B # ''[35m''"
definition colorCyan :: string where "colorCyan = CHR 0x1B # ''[36m''"

definition levelColors :: "Level \<rightharpoonup> string" where
  "levelColors = map_of
     [(DEBUG, colorCyan), (INFO, colorGreen), (WARN, colorYellow), (ERROR, colorRed),
      (CRITICAL, colorRed), (FATAL, colorRed), (PANIC, colorRed)]"

definition paddedLevelStrings :: "Level \<rightharpoonup> string" where
  "paddedLevelStrings = map_of
     [(DEBUG, ''[DEBUG]''), (INFO, ''[INFO] ''), (WARN, ''[WARN] ''), (ERROR, ''[ERROR]''),
      (CRITICAL, ''[CRIT] ''), (FATAL, ''[FATAL]''), (PANIC, ''[PANIC]'')]"

text \<open>
  \<^verbatim>\<open>levelColors[e.level]\<close>: indexing a Go map with a key it does not hold gives the zero
  value, the empty string.
\<close>

definition levelColor :: "Level \<Rightarrow> string" where
  "levelColor l = (case levelColors l of Some c \<Rightarrow> c | None \<Rightarrow> [])"

text \<open>\<^verbatim>\<open>Level.String\<close>: a switch with a default.\<close>

definition Level_String :: "Level \<Rightarrow> string" where
  "Level_String l =
     (if l = DEBUG then ''DEBUG''
      else if l = INFO then ''INFO''
      else if l = WARN then ''WARN''
      else if l = ERROR then ''ERROR''
      else if l = CRITICAL then ''CRIT''
      else if l = FATAL then ''FATAL''
      else if l = PANIC then ''PANIC''
      else ''UNKNOWN'')"

text \<open>\<^verbatim>\<open>Level.PaddedString\<close>: the comma-ok lookup in \<^verbatim>\<open>paddedLevelStrings\<close>.\<close>

definition Level_PaddedString :: "Level \<Rightarrow> string" where
  "Level_PaddedString l =
     (case paddedLevelStrings l of Some padded \<Rightarrow> padded | None \<Rightarrow> ''[UNKNOWN]'')"

section \<open>Arguments and the formatting routines of the Go library\<close>

text \<open>
  A \<^verbatim>\<open>float64\<close> is held by its shortest decimal form, which is what \<^verbatim>\<open>strconv\<close> prints
  with precision \<^verbatim>\<open>-1\<close>: sign, decimal digits (as a number) and decimal exponent, so
  \<open>Finite False 15 (-1)\<close> is 1.5.
\<close>

datatype float64 = Finite bool nat int | Inf bool | NaN

text \<open>
  The dynamic kinds the type switch of \<^verbatim>\<open>msgf\<close> tells apart. \<open>ArgError\<close> holds what
  \<^verbatim>\<open>Error()\<close> returns; \<open>ArgOther\<close> is a value of any other type, with the name of its type
  and its \<^verbatim>\<open>%v\<close> text.
\<close>

datatype arg =
    ArgString string
  | ArgInt "64 word"
  | ArgInt64 "64 word"
  | ArgFloat64 float64
  | ArgError string
  | ArgOther string string

fun natToDec :: "nat \<Rightarrow> string" where
  "natToDec n =
     (if n < 10 then [''0123456789'' ! n]
      else natToDec (n div 10) @ [''0123456789'' ! (n mod 10)])"

declare natToDec.simps [simp del]

text \<open>\<^verbatim>\<open>strconv.AppendInt(dst, i, 10)\<close> appends this text.\<close>

definition itoa :: "int \<Rightarrow> string" where
  "itoa i = (if i < 0 then CHR ''-'' # natToDec (nat (- i)) else natToDec (nat i))"

text \<open>
  \<^verbatim>\<open>strconv.AppendFloat(dst, v, 'f', -1, 64)\<close>: the shortest digits with the decimal point
  at \<open>dp\<close>, no exponent; the fraction has \<open>max (nd - dp) 0\<close> digits.
\<close>

definition FormatFloat :: "float64 \<Rightarrow> string" where
  "FormatFloat v =
     (case v of
        NaN \<Rightarrow> ''NaN''
      | Inf neg \<Rightarrow> (if neg then ''-Inf'' else ''+Inf'')
      | Finite neg m e \<Rightarrow>
          (let all = (if m = 0 then [] else natToDec m);
               ds = rev (dropWhile (\<lambda>c. c = CHR ''0'') (rev all));
               nd = int (length ds);
               dp = (if m = 0 then 0 else int (length all) + e);
               digit = (\<lambda>j. if 0 \<le> j \<and> j < nd then ds ! nat j else CHR ''0'');
               whole = (if 0 < dp then map (\<lambda>j. digit (int j)) [0 ..< nat dp] else ''0'');
               frac = (if dp < nd
                       then CHR ''.'' # map (\<lambda>i. digit (dp + int i)) [0 ..< nat (nd - dp)]
                       else [])
           in (if neg then ''-'' else []) @ whole @ frac))"

text \<open>
  What the model takes from the Go library as given: \<^verbatim>\<open>fmt.Sprintf\<close> (and with it
  \<^verbatim>\<open>fmt.Appendf\<close>, which appends the same text), the capacity \<^verbatim>\<open>append\<close> gives a slice
  that has to grow (old capacity, needed length), and \<^verbatim>\<open>slices.SortFunc\<close> (the comparison
  returns a Go \<^verbatim>\<open>int\<close>, 64 bits). Every general theorem below holds for any formatter,
  any growth policy and any sorting routine.
\<close>

record 'a runtime =
  Sprintf :: "string \<Rightarrow> arg list \<Rightarrow> string"
  growslice :: "nat \<Rightarrow> nat \<Rightarrow> nat"
  SortFunc :: "('a \<Rightarrow> 'a \<Rightarrow> 64 word) \<Rightarrow> 'a list \<Rightarrow> 'a list"

text \<open>
  An instance for concrete runs. Its formatter covers the directives \<^verbatim>\<open>%v %d %s %%\<close>
  without flags, width or precision, each with an operand it accepts; on any other
  format it returns a placeholder that no theorem evaluates. Its sort is right for
  up to 12 elements.
\<close>

fun verbText :: "char \<Rightarrow> arg \<Rightarrow> string option" where
  "verbText c (ArgString s) = (if c = CHR ''v'' \<or> c = CHR ''s'' then Some s else None)"
| "verbText c (ArgInt i) = (if c = CHR ''v'' \<or> c = CHR ''d'' then Some (itoa (sint i)) else None)"
| "verbText c (ArgInt64 i) = (if c = CHR ''v'' \<or> c = CHR ''d'' then Some (itoa (sint i)) else None)"
| "verbText c (ArgFloat64 f) = None"
| "verbText c (ArgError e) = (if c = CHR ''v'' \<or> c = CHR ''s'' then Some e else None)"
| "verbText c (ArgOther ty txt) = (if c = CHR ''v'' then Some txt else None)"

fun sprintfFragment :: "string \<Rightarrow> arg list \<Rightarrow> string option" where
  "sprintfFragment [] [] = Some []"
| "sprintfFragment [] (a # as) = None"
| "sprintfFragment (c # cs) as =
     (if c \<noteq> CHR ''%'' then map_option ((#) c) (sprintfFragment cs as)
      else (case cs of
              [] \<Rightarrow> None
            | v # rest \<Rightarrow>
                if v = CHR ''%'' then map_option ((#) c) (sprintfFragment rest as)
                else (case as of
                        [] \<Rightarrow> None
                      | a # as' \<Rightarrow>
                          (case verbText v a of
                             None \<Rightarrow> None
                           | Some t \<Rightarrow> map_option ((@) t) (sprintfFragment rest as')))))"

function growLoop :: "nat \<Rightarrow> nat \<Rightarrow> nat" where
  "growLoop newcap newLen =
     (let c = newcap + (newcap + 768) div 4 in if newLen \<le> c then c else growLoop c newLen)"
  by pat_completeness auto
termination
  by (relation "measure (\<lambda>(newcap, newLen). newLen - newcap)") auto

declare growLoop.simps [simp del]

text \<open>
  \<^verbatim>\<open>nextslicecap\<close> of the Go runtime (the round-up to an allocator size class that
  follows it is left out).
\<close>

definition nextslicecap :: "nat \<Rightarrow> nat \<Rightarrow> nat" where
  "nextslicecap oldCap newLen =
     (if 2 * oldCap < newLen then newLen
      else if oldCap < 256 then 2 * oldCap
      else growLoop oldCap newLen)"

text \<open>
  \<^verbatim>\<open>insertionSortCmpFunc\<close>, which is all \<^verbatim>\<open>slices.SortFunc\<close> runs on a slice of up to 12
  elements: each element in turn moves left while it compares less than its left
  neighbour. \<open>insertLeft\<close> is the inner loop; it holds the sorted prefix reversed, the
  neighbour first.
\<close>

fun insertLeft :: "('a \<Rightarrow> 'a \<Rightarrow> 64 word) \<Rightarrow> 'a \<Rightarrow> 'a list \<Rightarrow> 'a list" where
  "insertLeft cmp x [] = [x]"
| "insertLeft cmp x (y # ys) =
     (if sint (cmp x y) < 0 then y # insertLeft cmp x ys else x # y # ys)"

definition insertionSortCmpFunc :: "('a \<Rightarrow> 'a \<Rightarrow> 64 word) \<Rightarrow> 'a list \<Rightarrow> 'a list" where
  "insertionSortCmpFunc cmp xs = rev (foldl (\<lambda>prefix x. insertLeft cmp x prefix) [] xs)"

definition goRuntime :: "'a runtime" where
  "goRuntime =
     \<lparr> Sprintf = (\<lambda>format args.
         case sprintfFragment format args of Some s \<Rightarrow> s | None \<Rightarrow> ''%!(UNMODELLED)''),
       growslice = nextslicecap,
       SortFunc = insertionSortCmpFunc \<rparr>"

section \<open>The logger and the world around it\<close>

text \<open>
  A Go func value registered as a hook: \<open>fptr\<close> is its code pointer as \<^verbatim>\<open>fmt\<close> prints it
  with \<^verbatim>\<open>%p\<close>, \<open>fcall\<close> what a call returns (\<open>None\<close> is \<^verbatim>\<open>nil\<close>, \<open>Some e\<close> an error with
  the text \<open>e\<close>). Hooks are taken to be functions of their arguments.
\<close>

record hookfunc =
  fptr :: string
  fcall :: "Level \<Rightarrow> string \<Rightarrow> string option"

record Hook =
  hook_fn :: "Level \<Rightarrow> string \<Rightarrow> string option"
  hook_priority :: "64 word"
  hook_id :: string

text \<open>
  \<^verbatim>\<open>workerPool\<close>: the channel \<^verbatim>\<open>jobs\<close> holds the submitted closures, each given by the
  level and message it captured; \<^verbatim>\<open>stopChan\<close> is closed exactly when \<open>stopped\<close> is set.
\<close>

record workerPool =
  jobs :: "(Level \<times> string) list"
  workers :: nat
  stopped :: bool

text \<open>
  \<^verbatim>\<open>Logger\<close>. \<open>writers\<close> stands for \<^verbatim>\<open>output.writers\<close>, the writers of the
  \<^verbatim>\<open>multiWriter\<close>, each the number of a destination; \<open>wg\<close> is the counter of the wait group; \<open>pool\<close> and \<open>bufPool\<close> list the
  buffers (addresses of \<^verbatim>\<open>[]byte\<close> headers) a \<^verbatim>\<open>sync.Pool\<close> holds, the next one to be
  handed out first. \<open>maxHooks\<close> and \<open>bufSize\<close> are set by \<^verbatim>\<open>New\<close> alone (100 and 1024) and
  are naturals here.
\<close>

record Logger =
  level :: Level
  writers :: "nat list"
  timeFormat :: string
  hooks :: "Hook list"
  wg :: nat
  maxHooks :: nat
  bufSize :: nat
  pool :: "nat list"
  timeCache :: "(int \<times> string) list"
  workerPool :: workerPool
  maxCacheSize :: nat
  cleanupInProgress :: bool
  lastCleanup :: int
  bufPool :: "nat list"
  timeKey :: int
  timeValue :: string

text \<open>A byte slice: its content and its capacity.\<close>

record slice =
  sl_bytes :: string
  sl_cap :: nat

text \<open>What the program does to the outside, in the order it does it.\<close>

datatype effect =
    WriterWrite nat string
  | Stderr string
  | HookCall string Level string
  | Exit int
  | Panic string

text \<open>
  The package variables \<^verbatim>\<open>exitFunc\<close> and \<^verbatim>\<open>panicFunc\<close>: the default (\<^verbatim>\<open>os.Exit\<close>, the
  built-in \<^verbatim>\<open>panic\<close>) or a function set by \<^verbatim>\<open>SetExitFunc\<close> / \<^verbatim>\<open>SetPanicFunc\<close> that
  returns to its caller.
\<close>

datatype exitfn = OsExit | ExitStub
datatype panicfn = GoPanic | PanicStub

text \<open>
  The logger with what it lives in: the heap of buffers, the next free address, the
  effects so far, and the two package variables.
\<close>

record world = Logger +
  heap :: "nat \<Rightarrow> slice"
  nextAddr :: nat
  trace :: "effect list"
  exitFunc :: exitfn
  panicFunc :: panicfn

text \<open>How a call ends: it returns, the process exits, a panic unwinds, or it waits forever.\<close>

datatype outcome = Returns world | Exits world | Panics string world | Blocks world

fun final :: "outcome \<Rightarrow> world" where
  "final (Returns w) = w"
| "final (Exits w) = w"
| "final (Panics m w) = w"
| "final (Blocks w) = w"

text \<open>The clock readings of one call: \<^verbatim>\<open>time.Now()\<close> in \<^verbatim>\<open>getFormattedTime\<close> (its Unix
  second and its \<^verbatim>\<open>Format\<close>) and in \<^verbatim>\<open>cleanupTimeCache\<close>.\<close>

record clock =
  now_unix :: int
  now_format :: "string \<Rightarrow> string"
  cleanup_unix :: int

definition Stdout :: nat where "Stdout = 1"

definition emptySlice :: slice where
  "emptySlice = \<lparr> sl_bytes = [], sl_cap = 0 \<rparr>"

text \<open>\<^verbatim>\<open>New\<close>, in a fresh process.\<close>

definition New :: world where
  "New =
     \<lparr> level = INFO, writers = [Stdout], timeFormat = ''2006-01-02 15:04:05.000 MST'',
       hooks = [], wg = 0, maxHooks = 100, bufSize = 1024, pool = [], timeCache = [],
       workerPool = \<lparr> jobs = [], workers = 10, stopped = False \<rparr>,
       maxCacheSize = 1000, cleanupInProgress = False, lastCleanup = 0, bufPool = [],
       timeKey = 0, timeValue = [],
       heap = (\<lambda>a. emptySlice), nextAddr = 0, trace = [],
       exitFunc = OsExit, panicFunc = GoPanic \<rparr>"

definition SetLevel :: "Level \<Rightarrow> world \<Rightarrow> world" where
  "SetLevel lv w = w\<lparr> level := lv \<rparr>"


definition SetOutput :: "nat \<Rightarrow> world \<Rightarrow> world" where
  "SetOutput out w = w\<lparr> writers := [out] \<rparr>"


definition SetExitFunc :: "exitfn \<Rightarrow> world \<Rightarrow> world" where
  "SetExitFunc f w = w\<lparr> exitFunc := f \<rparr>"

definition SetPanicFunc :: "panicfn \<Rightarrow> world \<Rightarrow> world" where
  "SetPanicFunc f w = w\<lparr> panicFunc := f \<rparr>"

text \<open>
  \<^verbatim>\<open>AddHook\<close>: the error (or \<open>None\<close> for \<^verbatim>\<open>nil\<close>) and the world after the call. The id is
  \<^verbatim>\<open>fmt.Sprintf("%p", hook)\<close>.
\<close>

definition AddHook :: "hookfunc \<Rightarrow> 64 word \<Rightarrow> world \<Rightarrow> string option \<times> world" where
  "AddHook hook priority w =
     (if maxHooks w \<le> length (hooks w)
      then (Some (''maximum number of hooks ('' @ itoa (int (maxHooks w)) @ '') reached''), w)
      else (None,
            w\<lparr> hooks := hooks w @
                 [\<lparr> hook_fn = fcall hook, hook_priority = priority, hook_id = fptr hook \<rparr>] \<rparr>))"

section \<open>Buffers and the pool\<close>

text \<open>\<^verbatim>\<open>append(s, d...)\<close>: in place while the capacity holds, else into a larger array.\<close>

definition append_slice :: "'a runtime \<Rightarrow> slice \<Rightarrow> string \<Rightarrow> slice" where
  "append_slice rt s d =
     (let n = length (sl_bytes s) + length d
      in \<lparr> sl_bytes = sl_bytes s @ d,
           sl_cap = (if n \<le> sl_cap s then sl_cap s else growslice rt (sl_cap s) n) \<rparr>)"

text \<open>\<^verbatim>\<open>*buf = append(*buf, d...)\<close> for the buffer at address \<open>a\<close>.\<close>

definition appendTo :: "'a runtime \<Rightarrow> nat \<Rightarrow> string \<Rightarrow> world \<Rightarrow> world" where
  "appendTo rt a d w = w\<lparr> heap := (heap w)(a := append_slice rt (heap w a) d) \<rparr>"

text \<open>
  \<^verbatim>\<open>l.pool.Get()\<close>: a pooled buffer if there is one, else what \<^verbatim>\<open>New\<close> of the pool makes,
  \<^verbatim>\<open>make([]byte, 0, l.bufSize)\<close>.
\<close>

definition pool_Get :: "world \<Rightarrow> nat \<times> world" where
  "pool_Get w =
     (case pool w of
        a # rest \<Rightarrow> (a, w\<lparr> pool := rest \<rparr>)
      | [] \<Rightarrow>
          (nextAddr w,
           w\<lparr> heap := (heap w)(nextAddr w := \<lparr> sl_bytes = [], sl_cap = bufSize w \<rparr>),
              nextAddr := nextAddr w + 1 \<rparr>))"

definition getBuffer :: "nat \<Rightarrow> world \<Rightarrow> nat \<times> world" where
  "getBuffer sz w =
     (if bufSize w * 4 < sz
      then (nextAddr w,
            w\<lparr> heap := (heap w)(nextAddr w := \<lparr> sl_bytes = [], sl_cap = sz \<rparr>),
               nextAddr := nextAddr w + 1 \<rparr>)
      else (case pool_Get w of
              (buf, w') \<Rightarrow> (buf, w'\<lparr> heap := (heap w')(buf := (heap w' buf)\<lparr> sl_bytes := [] \<rparr>) \<rparr>)))"

definition putBuffer :: "nat option \<Rightarrow> world \<Rightarrow> world" where
  "putBuffer buf w =
     (case buf of
        None \<Rightarrow> w
      | Some a \<Rightarrow> if bufSize w * 4 < sl_cap (heap w a) then w else w\<lparr> pool := a # pool w \<rparr>)"

record event =
  ev_level :: Level
  ev_buf :: nat

definition newEvent :: "Level \<Rightarrow> world \<Rightarrow> event option \<times> world" where
  "newEvent lv w =
     (if lv < level w then (None, w)
      else (case getBuffer (bufSize w) w of
              (buf, w') \<Rightarrow> (Some \<lparr> ev_level = lv, ev_buf = buf \<rparr>, w')))"

section \<open>The timestamp cache\<close>

definition cleanupTimeCache :: "clock \<Rightarrow> world \<Rightarrow> world" where
  "cleanupTimeCache clk w =
     (if cleanupInProgress w then w
      else (let now = cleanup_unix clk
            in if now - lastCleanup w < 60 then w
               else w\<lparr> timeCache := filter (\<lambda>(key, v). \<not> key < now - 3600) (timeCache w),
                       cleanupInProgress := False,
                       lastCleanup := now \<rparr>))"

definition getFormattedTime :: "clock \<Rightarrow> world \<Rightarrow> string \<times> world" where
  "getFormattedTime clk w =
     (let key = now_unix clk
      in if key = timeKey w then (timeValue w, w)
         else (let formatted = now_format clk (timeFormat w)
               in (formatted,
                   cleanupTimeCache clk (w\<lparr> timeKey := key, timeValue := formatted \<rparr>))))"

section \<open>The fan-out writer\<close>

text \<open>\<^verbatim>\<open>multiWriter.write\<close>: one \<^verbatim>\<open>Write\<close> per writer, in the order of the slice.\<close>

definition multiWriter_write :: "string \<Rightarrow> world \<Rightarrow> world" where
  "multiWriter_write data w =
     w\<lparr> trace := trace w @ map (\<lambda>writer. WriterWrite writer data) (writers w) \<rparr>"

section \<open>Hooks and the worker pool\<close>

text \<open>\<^verbatim>\<open>removeHook\<close>: the first record with the id goes.\<close>

fun deleteFirst :: "string \<Rightarrow> Hook list \<Rightarrow> Hook list" where
  "deleteFirst i [] = []"
| "deleteFirst i (h # hs) = (if hook_id h = i then hs else h # deleteFirst i hs)"

definition removeHook :: "string \<Rightarrow> world \<Rightarrow> world" where
  "removeHook i w = w\<lparr> hooks := deleteFirst i (hooks w) \<rparr>"

text \<open>The comparison handed to \<^verbatim>\<open>slices.SortFunc\<close>: \<^verbatim>\<open>b.priority - a.priority\<close>.\<close>

definition hookCmp :: "Hook \<Rightarrow> Hook \<Rightarrow> 64 word" where
  "hookCmp a b = hook_priority b - hook_priority a"

text \<open>The body of the loop over the sorted copy.\<close>

definition callHook :: "Level \<Rightarrow> string \<Rightarrow> world \<Rightarrow> Hook \<Rightarrow> world" where
  "callHook lv msg w h =
     (let w1 = w\<lparr> trace := trace w @ [HookCall (hook_id h) lv msg] \<rparr>
      in case hook_fn h lv msg of
           None \<Rightarrow> w1
         | Some err \<Rightarrow>
             removeHook (hook_id h)
               (w1\<lparr> trace := trace w1 @ [Stderr (''Hook error: '' @ err @ [CHR 0x0A])] \<rparr>))"

text \<open>
  The closure \<^verbatim>\<open>executeHooks\<close> submits, run by a worker: copy the hooks, sort the copy,
  call each, and \<^verbatim>\<open>wg.Done()\<close> at the end (the counter is at least 1 whenever a
  submitted job runs, since \<^verbatim>\<open>executeHooks\<close> adds 1 before it submits).
\<close>

definition hookJob :: "Hook runtime \<Rightarrow> Level \<Rightarrow> string \<Rightarrow> world \<Rightarrow> world" where
  "hookJob rt lv msg w =
     (let sorted = SortFunc rt hookCmp (hooks w);
          w' = foldl (callHook lv msg) w sorted
      in w'\<lparr> wg := wg w' - 1 \<rparr>)"

text \<open>
  A worker takes the oldest job of the channel and runs it. Workers of a stopped pool
  have returned. The passes are taken one after the other, in the order of the queue.
\<close>

definition workerStep :: "Hook runtime \<Rightarrow> world \<Rightarrow> world" where
  "workerStep rt w =
     (if stopped (workerPool w) then w
      else (case jobs (workerPool w) of
              [] \<Rightarrow> w
            | (lv, msg) # rest \<Rightarrow>
                hookJob rt lv msg (w\<lparr> workerPool := (workerPool w)\<lparr> jobs := rest \<rparr> \<rparr>)))"

text \<open>
  \<^verbatim>\<open>workerPool.submit\<close>: dropped when the pool is stopped; else sent on the channel of
  capacity \<^verbatim>\<open>workers*2\<close>, after a worker has taken a job off it when it is full.
\<close>

definition submit :: "Hook runtime \<Rightarrow> Level \<times> string \<Rightarrow> world \<Rightarrow> world" where
  "submit rt job w =
     (if stopped (workerPool w) then w
      else (let w1 = (if workers (workerPool w) * 2 \<le> length (jobs (workerPool w))
                      then workerStep rt w else w)
            in w1\<lparr> workerPool := (workerPool w1)\<lparr> jobs := jobs (workerPool w1) @ [job] \<rparr> \<rparr>))"

definition executeHooks :: "Hook runtime \<Rightarrow> Level \<Rightarrow> string \<Rightarrow> world \<Rightarrow> world" where
  "executeHooks rt lv msg w = submit rt (lv, msg) (w\<lparr> wg := wg w + 1 \<rparr>)"

text \<open>
  \<^verbatim>\<open>l.wg.Wait()\<close>: the workers run what is queued; the call returns when the counter is
  zero and never otherwise (\<open>None\<close>).
\<close>

definition wg_Wait :: "Hook runtime \<Rightarrow> world \<Rightarrow> world option" where
  "wg_Wait rt w =
     (let w' = (workerStep rt ^^ length (jobs (workerPool w))) w
      in if wg w' = 0 then Some w' else None)"

text \<open>
  \<^verbatim>\<open>workerPool.stop\<close>. Jobs still queued when the pool stops stay in the channel: the
  workers are taken to see the closed \<^verbatim>\<open>stopChan\<close> first and return.
\<close>

definition stop :: "world \<Rightarrow> world" where
  "stop w =
     (if stopped (workerPool w) then w
      else w\<lparr> workerPool := (workerPool w)\<lparr> stopped := True \<rparr> \<rparr>)"

text \<open>\<^verbatim>\<open>Logger.Close\<close>.\<close>

definition Close :: "Hook runtime \<Rightarrow> world \<Rightarrow> outcome" where
  "Close rt w =
     (let w1 = stop w
      in case wg_Wait rt w1 of
           None \<Rightarrow> Blocks w1
         | Some w2 \<Rightarrow> Returns (w2\<lparr> hooks := [] \<rparr>))"

section \<open>The message builder\<close>

text \<open>The text the three paths of \<^verbatim>\<open>msgf\<close> append as the body of the message.\<close>

definition msgBody :: "'a runtime \<Rightarrow> string \<Rightarrow> arg list \<Rightarrow> string" where
  "msgBody rt format args =
     (case args of
        [] \<Rightarrow> format
      | [a] \<Rightarrow>
          (case a of
             ArgString v \<Rightarrow> v
           | ArgInt v \<Rightarrow> itoa (sint v)
           | ArgInt64 v \<Rightarrow> itoa (sint v)
           | ArgFloat64 v \<Rightarrow> FormatFloat v
           | ArgError v \<Rightarrow> v
           | ArgOther ty txt \<Rightarrow> Sprintf rt format args)
      | _ \<Rightarrow> Sprintf rt format args)"

text \<open>What \<^verbatim>\<open>fmt.Appendf(*e.buf, "%s%s%s %s: ", ...)\<close> appends.\<close>

definition linePrefix :: "Level \<Rightarrow> string \<Rightarrow> string" where
  "linePrefix lv timestamp =
     levelColor lv @ Level_PaddedString lv @ colorReset @ '' '' @ timestamp @ '': ''"

text \<open>
  The end of \<^verbatim>\<open>msgf\<close>, from the test for \<^verbatim>\<open>FATAL\<close> on. \<open>deferred\<close> is the argument of the
  deferred \<^verbatim>\<open>putBuffer\<close>: it runs when the function returns and when a panic unwinds,
  not when \<^verbatim>\<open>os.Exit\<close> ends the process, nor while the call waits.
\<close>

definition msgfEnd :: "Hook runtime \<Rightarrow> Level \<Rightarrow> string \<Rightarrow> arg list \<Rightarrow> nat \<Rightarrow> world \<Rightarrow> outcome" where
  "msgfEnd rt lv format args deferred w =
     (if lv = FATAL then
        (case wg_Wait rt w of
           None \<Rightarrow> Blocks w
         | Some w1 \<Rightarrow>
             (let w2 = stop w1; w3 = w2\<lparr> trace := trace w2 @ [Exit 1] \<rparr>
              in case exitFunc w3 of
                   OsExit \<Rightarrow> Exits w3
                 | ExitStub \<Rightarrow> Returns (putBuffer (Some deferred) w3)))
      else if lv = PANIC then
        (let message = Sprintf rt format args
         in case wg_Wait rt w of
              None \<Rightarrow> Blocks w
            | Some w1 \<Rightarrow>
                (let w2 = stop w1; w3 = w2\<lparr> trace := trace w2 @ [Panic message] \<rparr>
                 in case panicFunc w3 of
                      GoPanic \<Rightarrow> Panics message (putBuffer (Some deferred) w3)
                    | PanicStub \<Rightarrow> Returns (putBuffer (Some deferred) w3)))
      else Returns (putBuffer (Some deferred) w))"

text \<open>
  \<^verbatim>\<open>event.msgf\<close>. The \<^verbatim>\<open>defer\<close> statement evaluates \<^verbatim>\<open>e.buf\<close> where it stands, at the top.
\<close>

definition msgf :: "Hook runtime \<Rightarrow> clock \<Rightarrow> event option \<Rightarrow> string \<Rightarrow> arg list \<Rightarrow> world \<Rightarrow> outcome" where
  "msgf rt clk e format args w =
     (case e of
        None \<Rightarrow> Returns w
      | Some ev \<Rightarrow>
          (let deferred = ev_buf ev;
               lv = ev_level ev;
               (timestamp, w1) = getFormattedTime clk w;
               estimatedSize = length (levelColor lv) + length (Level_PaddedString lv) +
                 length colorReset + length timestamp + 2 + length format + 1;
               (buf, w2) =
                 (if sl_cap (heap w1 (ev_buf ev)) < estimatedSize
                  then (case getBuffer estimatedSize w1 of
                          (newBuf, w') \<Rightarrow>
                            (newBuf, appendTo rt newBuf (sl_bytes (heap w' (ev_buf ev))) w'))
                  else (ev_buf ev, w1));
               w3 = appendTo rt buf (linePrefix lv timestamp) w2;
               w4 = appendTo rt buf (msgBody rt format args) w3;
               w5 = appendTo rt buf [CHR 0x0A] w4;
               w6 = multiWriter_write (sl_bytes (heap w5 buf)) w5;
               w7 = (if hooks w6 \<noteq> []
                     then executeHooks rt lv (Sprintf rt format args) w6 else w6)
           in msgfEnd rt lv format args deferred w7))"

text \<open>
  The emission methods: \<^verbatim>\<open>l.newEvent(LEVEL).msgf(msg, args...)\<close>, by way of
  \<^verbatim>\<open>debugEvent\<close>, \<^verbatim>\<open>infoEvent\<close> and so on.
\<close>

definition emit :: "Hook runtime \<Rightarrow> clock \<Rightarrow> Level \<Rightarrow> string \<Rightarrow> arg list \<Rightarrow> world \<Rightarrow> outcome" where
  "emit rt clk lv msg args w = (case newEvent lv w of (e, w') \<Rightarrow> msgf rt clk e msg args w')"

definition Logger_Debug :: "Hook runtime \<Rightarrow> clock \<Rightarrow> string \<Rightarrow> arg list \<Rightarrow> world \<Rightarrow> outcome" where
  "Logger_Debug rt clk msg args w = emit rt clk DEBUG msg args w"

definition Logger_Info :: "Hook runtime \<Rightarrow> clock \<Rightarrow> string \<Rightarrow> arg list \<Rightarrow> world \<Rightarrow> outcome" where
  "Logger_Info rt clk msg args w = emit rt clk INFO msg args w"

definition Logger_Warn :: "Hook runtime \<Rightarrow> clock \<Rightarrow> string \<Rightarrow> arg list \<Rightarrow> world \<Rightarrow> outcome" where
  "Logger_Warn rt clk msg args w = emit rt clk WARN msg args w"

definition Logger_Error :: "Hook runtime \<Rightarrow> clock \<Rightarrow> string \<Rightarrow> arg list \<Rightarrow> world \<Rightarrow> outcome" where
  "Logger_Error rt clk msg args w = emit rt clk ERROR msg args w"

definition Logger_Critical :: "Hook runtime \<Rightarrow> clock \<Rightarrow> string \<Rightarrow> arg list \<Rightarrow> world \<Rightarrow> outcome" where
  "Logger_Critical rt clk msg args w = emit rt clk CRITICAL msg args w"

definition Logger_Fatal :: "Hook runtime \<Rightarrow> clock \<Rightarrow> string \<Rightarrow> arg list \<Rightarrow> world \<Rightarrow> outcome" where
  "Logger_Fatal rt clk msg args w = emit rt clk FATAL msg args w"

definition Logger_Panic :: "Hook runtime \<Rightarrow> clock \<Rightarrow> string \<Rightarrow> arg list \<Rightarrow> world \<Rightarrow> outcome" where
  "Logger_Panic rt clk msg args w = emit rt clk PANIC msg args w"

section \<open>Observations\<close>

fun isWrite :: "effect \<Rightarrow> bool" where
  "isWrite (WriterWrite d data) = True"
| "isWrite e = False"

text \<open>The bytes destination \<open>d\<close> has received.\<close>

fun bytesFor :: "nat \<Rightarrow> effect \<Rightarrow> string" where
  "bytesFor d (WriterWrite d' data) = (if d' = d then data else [])"
| "bytesFor d e = []"

definition sinkContent :: "nat \<Rightarrow> effect list \<Rightarrow> string" where
  "sinkContent d t = concat (map (bytesFor d) t)"

text \<open>
  \<open>w'\<close> comes after \<open>w\<close> with the same writers and the same cached timestamp, and no
  write to any writer between.
\<close>

definition quiet :: "world \<Rightarrow> world \<Rightarrow> bool" where
  "quiet w w' =
     (writers w' = writers w \<and> timeKey w' = timeKey w \<and> timeValue w' = timeValue w \<and>
      (\<exists>rest. trace w' = trace w @ rest \<and> filter isWrite rest = []))"

definition isBlocks :: "outcome \<Rightarrow> bool" where
  "isBlocks oc = (case oc of Blocks w \<Rightarrow> True | _ \<Rightarrow> False)"




text \<open>A hook whose callback returns an error for this level and message.\<close>

definition failing :: "Level \<Rightarrow> string \<Rightarrow> Hook \<Rightarrow> bool" where
  "failing lv msg h = (hook_fn h lv msg \<noteq> None)"

text \<open>What one call of a hook adds to the effects.\<close>

definition callEffects :: "Level \<Rightarrow> string \<Rightarrow> Hook \<Rightarrow> effect list" where
  "callEffects lv msg h =
     HookCall (hook_id h) lv msg #
     (case hook_fn h lv msg of
        None \<Rightarrow> []
      | Some err \<Rightarrow> [Stderr (''Hook error: '' @ err @ [CHR 0x0A])])"

text \<open>
  The pool runs and the wait group counts the queued jobs and \<open>k\<close> more: with \<open>k = 0\<close>,
  the state of a logger on which no job was ever dropped.
\<close>

definition balanced :: "nat \<Rightarrow> world \<Rightarrow> bool" where
  "balanced k w = (\<not> stopped (workerPool w) \<and> wg w = length (jobs (workerPool w)) + k)"

text \<open>
  The call did not wait forever, its last effect is \<open>e\<close>, and by then every hook job had
  run and the pool was stopped.
\<close>

definition draining :: "outcome \<Rightarrow> effect \<Rightarrow> bool" where
  "draining oc e =
     (\<not> isBlocks oc \<and> trace (final oc) \<noteq> [] \<and> last (trace (final oc)) = e \<and>
      wg (final oc) = 0 \<and> jobs (workerPool (final oc)) = [] \<and>
      stopped (workerPool (final oc)))"

text \<open>A priority far enough from the ends of the 64-bit range for differences not to wrap.\<close>

definition moderate :: "Hook \<Rightarrow> bool" where
  "moderate h = (- (2 ^ 62) \<le> sint (hook_priority h) \<and> sint (hook_priority h) < 2 ^ 62)"

section \<open>The steps of msgf, named\<close>

text \<open>
  The blocks of \<^verbatim>\<open>msgf\<close> between its comments, each as a function of the pair (buffer,
  world) it works on; \<open>msgf_stages\<close> below shows \<^verbatim>\<open>msgf\<close> is their composition. Concrete
  runs go through them.
\<close>

definition estimate :: "Level \<Rightarrow> string \<Rightarrow> string \<Rightarrow> nat" where
  "estimate lv timestamp format =
     length (levelColor lv) + length (Level_PaddedString lv) +
     length colorReset + length timestamp + 2 + length format + 1"

definition resized :: "'a runtime \<Rightarrow> nat \<Rightarrow> nat \<Rightarrow> world \<Rightarrow> nat \<times> world" where
  "resized rt n b w1 =
     (if sl_cap (heap w1 b) < n
      then (case getBuffer n w1 of
              (newBuf, w') \<Rightarrow> (newBuf, appendTo rt newBuf (sl_bytes (heap w' b)) w'))
      else (b, w1))"

definition formatted ::
  "'a runtime \<Rightarrow> Level \<Rightarrow> string \<Rightarrow> string \<Rightarrow> arg list \<Rightarrow> nat \<times> world \<Rightarrow> nat \<times> world" where
  "formatted rt lv timestamp format args r =
     (case r of
        (buf, w2) \<Rightarrow>
          (buf, appendTo rt buf [CHR 0x0A]
                  (appendTo rt buf (msgBody rt format args)
                     (appendTo rt buf (linePrefix lv timestamp) w2))))"

definition flushed :: "nat \<times> world \<Rightarrow> world" where
  "flushed r = (case r of (buf, w5) \<Rightarrow> multiWriter_write (sl_bytes (heap w5 buf)) w5)"

definition dispatched :: "Hook runtime \<Rightarrow> Level \<Rightarrow> string \<Rightarrow> world \<Rightarrow> world" where
  "dispatched rt lv msg w6 = (if hooks w6 \<noteq> [] then executeHooks rt lv msg w6 else w6)"

section \<open>Concrete loggers and inputs\<close>

text \<open>
  A clock that reads 2023-11-14 22:13:20 UTC; its \<^verbatim>\<open>Format\<close> gives the text of that instant
  in the default layout, whatever the layout.
\<close>

definition clk0 :: clock where
  "clk0 =
     \<lparr> now_unix = 1700000000,
       now_format = (\<lambda>layout. ''2023-11-14 22:13:20.000 UTC''),
       cleanup_unix = 1700000000 \<rparr>"


text \<open>A hook that records the call and returns \<^verbatim>\<open>nil\<close>.\<close>

definition recorder :: hookfunc where
  "recorder = \<lparr> fptr = ''0xc000012340'', fcall = (\<lambda>lv msg. None) \<rparr>"

text \<open>
  Two closures of one function literal, \<^verbatim>\<open>mk(false)\<close> and \<^verbatim>\<open>mk(true)\<close> of
  \<^verbatim>\<open>mk := func(fail bool) func(Level, string) error { return func(...) error { if fail
  { return errors.New("boom") }; return nil } }\<close>: they share the code pointer that
  \<^verbatim>\<open>%p\<close> prints.
\<close>

definition quietClosure :: hookfunc where
  "quietClosure = \<lparr> fptr = ''0x47b2c0'', fcall = (\<lambda>lv msg. None) \<rparr>"

definition failingClosure :: hookfunc where
  "failingClosure = \<lparr> fptr = ''0x47b2c0'', fcall = (\<lambda>lv msg. Some ''boom'') \<rparr>"

definition lowHook :: hookfunc where
  "lowHook = \<lparr> fptr = ''0x47b100'', fcall = (\<lambda>lv msg. None) \<rparr>"

definition highHook :: hookfunc where
  "highHook = \<lparr> fptr = ''0x47b200'', fcall = (\<lambda>lv msg. None) \<rparr>"

text \<open>\<^verbatim>\<open>logger.SetLevel(DEBUG); logger.AddHook(recorder, 0)\<close> on a new logger.\<close>

definition demoLogger :: world where
  "demoLogger = snd (AddHook recorder 0 (SetLevel DEBUG New))"

text \<open>\<^verbatim>\<open>logger.AddHook(mk(false), 0); logger.AddHook(mk(true), 0)\<close>.\<close>

definition twoClosures :: world where
  "twoClosures = snd (AddHook failingClosure 0 (snd (AddHook quietClosure 0 New)))"

text \<open>\<^verbatim>\<open>logger.Close(); logger.AddHook(recorder, 0)\<close>.\<close>

definition closedWithHook :: world where
  "closedWithHook = snd (AddHook recorder 0 (final (Close goRuntime New)))"

text \<open>\<^verbatim>\<open>logger.AddHook(low, math.MinInt64); logger.AddHook(high, 1)\<close>.\<close>

definition lowFirst :: world where
  "lowFirst = snd (AddHook highHook 1 (snd (AddHook lowHook (- 9223372036854775808) New)))"


text \<open>A message of 1100 bytes.\<close>

definition longMsg :: string where
  "longMsg = replicate 1100 CHR ''x''"

text \<open>A logger holding \<open>n\<close> registrations of the recorder.\<close>

definition filledLogger :: "nat \<Rightarrow> world" where
  "filledLogger n = ((\<lambda>w. snd (AddHook recorder 0 w)) ^^ n) New"

section \<open>Theorems\<close>

lemmas Level_defs = DEBUG_def INFO_def WARN_def ERROR_def CRITICAL_def FATAL_def PANIC_def

lemmas color_defs = colorReset_def colorRed_def colorGreen_def colorYellow_def
  colorBlue_def colorPurple_def colorCyan_def

subsection \<open>Frame lemmas\<close>

lemma quiet_refl [simp]: "quiet w w"
  by (simp add: quiet_def)

lemma quiet_trans: "quiet a b \<Longrightarrow> quiet b c \<Longrightarrow> quiet a c"
  by (auto simp add: quiet_def)

lemma gft_fields [simp]:
  "trace (snd (getFormattedTime clk w)) = trace w"
  "writers (snd (getFormattedTime clk w)) = writers w"
  "heap (snd (getFormattedTime clk w)) = heap w"
  "hooks (snd (getFormattedTime clk w)) = hooks w"
  by (simp_all add: getFormattedTime_def cleanupTimeCache_def Let_def)


lemma gft_fst:
  "fst (getFormattedTime clk w) =
     (if now_unix clk = timeKey w then timeValue w else now_format clk (timeFormat w))"
  by (simp add: getFormattedTime_def Let_def)

lemma getBuffer_fields [simp]:
  "trace (snd (getBuffer n w)) = trace w"
  "writers (snd (getBuffer n w)) = writers w"
  "hooks (snd (getBuffer n w)) = hooks w"
  "level (snd (getBuffer n w)) = level w"
  "timeKey (snd (getBuffer n w)) = timeKey w"
  "timeValue (snd (getBuffer n w)) = timeValue w"
  "timeFormat (snd (getBuffer n w)) = timeFormat w"
  by (simp_all add: getBuffer_def pool_Get_def split: list.splits)

lemma getBuffer_empty:
  "sl_bytes (heap (snd (getBuffer n w)) (fst (getBuffer n w))) = []"
  by (simp add: getBuffer_def pool_Get_def split: list.splits)

lemma getBuffer_keeps_empty:
  "sl_bytes (heap w x) = [] \<Longrightarrow> sl_bytes (heap (snd (getBuffer n w)) x) = []"
  by (auto simp add: getBuffer_def pool_Get_def split: list.splits)

lemma appendTo_fields [simp]:
  "trace (appendTo rt a d w) = trace w"
  "writers (appendTo rt a d w) = writers w"
  "hooks (appendTo rt a d w) = hooks w"
  "timeKey (appendTo rt a d w) = timeKey w"
  "timeValue (appendTo rt a d w) = timeValue w"
  by (simp_all add: appendTo_def)

lemma appendTo_bytes [simp]:
  "sl_bytes (heap (appendTo rt a d w) a) = sl_bytes (heap w a) @ d"
  by (simp add: appendTo_def append_slice_def Let_def)

subsection \<open>Nothing after the fan-out writes to a destination\<close>

lemma callHook_quiet: "quiet w (callHook lv msg w h)"
  by (simp add: callHook_def quiet_def removeHook_def Let_def split: option.splits)

lemma foldl_callHook_quiet: "quiet w (foldl (callHook lv msg) w hs)"
proof (induction hs arbitrary: w)
  case Nil
  show ?case by simp
next
  case (Cons h hs)
  have "quiet w (callHook lv msg w h)" by (rule callHook_quiet)
  moreover have "quiet (callHook lv msg w h) (foldl (callHook lv msg) (callHook lv msg w h) hs)"
    by (rule Cons.IH)
  ultimately show ?case by (auto intro: quiet_trans)
qed

lemma quiet_wg: "quiet w w' \<Longrightarrow> quiet w (w'\<lparr> wg := n \<rparr>)"
  by (simp add: quiet_def)

lemma quiet_workerPool: "quiet w w' \<Longrightarrow> quiet w (w'\<lparr> workerPool := p \<rparr>)"
  by (simp add: quiet_def)

lemma quiet_from_wg: "quiet (w\<lparr> wg := n \<rparr>) w' \<Longrightarrow> quiet w w'"
  by (simp add: quiet_def)

lemma quiet_from_workerPool: "quiet (w\<lparr> workerPool := p \<rparr>) w' \<Longrightarrow> quiet w w'"
  by (simp add: quiet_def)

lemma hookJob_quiet: "quiet w (hookJob rt lv msg w)"
  by (simp add: hookJob_def Let_def quiet_wg foldl_callHook_quiet)

lemma workerStep_quiet: "quiet w (workerStep rt w)"
  by (auto simp add: workerStep_def split: list.splits
      intro: quiet_from_workerPool hookJob_quiet)

lemma workerSteps_quiet: "quiet w ((workerStep rt ^^ n) w)"
proof (induction n)
  case 0
  show ?case by simp
next
  case (Suc n)
  then show ?case by (auto intro: quiet_trans workerStep_quiet)
qed

lemma submit_quiet: "quiet w (submit rt job w)"
  by (auto simp add: submit_def Let_def intro: quiet_workerPool workerStep_quiet)

lemma executeHooks_quiet: "quiet w (executeHooks rt lv msg w)"
  by (auto simp add: executeHooks_def intro: quiet_from_wg submit_quiet)

lemma wg_Wait_quiet: "wg_Wait rt w = Some w' \<Longrightarrow> quiet w w'"
  by (auto simp add: wg_Wait_def Let_def workerSteps_quiet split: if_splits)

lemma stop_quiet: "quiet w (stop w)"
  by (simp add: stop_def quiet_def)

lemma putBuffer_quiet: "quiet w (putBuffer b w)"
  by (simp add: putBuffer_def quiet_def split: option.splits)

lemma quiet_effect: "\<not> isWrite e \<Longrightarrow> quiet w (w\<lparr> trace := trace w @ [e] \<rparr>)"
  by (simp add: quiet_def)

lemma msgfEnd_quiet: "quiet w (final (msgfEnd rt lv format args deferred w))"
proof -
  have fin: "quiet w (putBuffer b (s\<lparr> trace := trace s @ [e] \<rparr>))"
    if "wg_Wait rt w = Some w1" "s = stop w1" "\<not> isWrite e" for w1 s e b
  proof -
    have "quiet w w1" using that(1) by (rule wg_Wait_quiet)
    moreover have "quiet w1 s" using that(2) by (simp add: stop_quiet)
    moreover have "quiet s (s\<lparr> trace := trace s @ [e] \<rparr>)"
      using that(3) by (rule quiet_effect)
    moreover have "quiet (s\<lparr> trace := trace s @ [e] \<rparr>)
        (putBuffer b (s\<lparr> trace := trace s @ [e] \<rparr>))"
      by (rule putBuffer_quiet)
    ultimately show ?thesis by (blast intro: quiet_trans)
  qed
  have fin2: "quiet w (s\<lparr> trace := trace s @ [e] \<rparr>)"
    if "wg_Wait rt w = Some w1" "s = stop w1" "\<not> isWrite e" for w1 s e
    using fin [OF that, of None] by (simp add: putBuffer_def)
  show ?thesis
    by (auto simp add: msgfEnd_def Let_def putBuffer_quiet fin fin2
        split: option.splits exitfn.splits panicfn.splits)
qed

subsection \<open>What an emission writes\<close>

lemma msgf_stages:
  "msgf rt clk (Some ev) format args w =
     (case getFormattedTime clk w of
        (timestamp, w1) \<Rightarrow>
          msgfEnd rt (ev_level ev) format args (ev_buf ev)
            (dispatched rt (ev_level ev) (Sprintf rt format args)
               (flushed (formatted rt (ev_level ev) timestamp format args
                  (resized rt (estimate (ev_level ev) timestamp format) (ev_buf ev) w1)))))"
  by (simp add: msgf_def formatted_def flushed_def dispatched_def resized_def estimate_def
      Let_def split: prod.splits)

lemma resized_empty:
  assumes "sl_bytes (heap w1 b) = []"
  shows "sl_bytes (heap (snd (resized rt n b w1)) (fst (resized rt n b w1))) = []
         \<and> trace (snd (resized rt n b w1)) = trace w1
         \<and> writers (snd (resized rt n b w1)) = writers w1"
proof (cases "sl_cap (heap w1 b) < n")
  case False
  then show ?thesis using assms by (simp add: resized_def)
next
  case True
  obtain newBuf w' where g: "getBuffer n w1 = (newBuf, w')" by (cases "getBuffer n w1")
  have e1: "sl_bytes (heap w' newBuf) = []"
    using getBuffer_empty [of n w1] by (simp add: g)
  have e2: "sl_bytes (heap w' b) = []"
    using getBuffer_keeps_empty [of w1 b n] assms by (simp add: g)
  have t: "trace w' = trace w1" "writers w' = writers w1"
    using getBuffer_fields(1,2) [of n w1] by (simp_all add: g)
  show ?thesis using True e1 e2 t by (simp add: resized_def g)
qed

lemma msgf_trace:
  assumes empty: "sl_bytes (heap w (ev_buf ev)) = []"
  shows "\<exists>rest. trace (final (msgf rt clk (Some ev) format args w)) =
           trace w @
           map (\<lambda>d. WriterWrite d
                  (linePrefix (ev_level ev) (fst (getFormattedTime clk w)) @
                   msgBody rt format args @ [CHR 0x0A]))
             (writers w) @ rest
         \<and> filter isWrite rest = []"
proof -
  define lv where "lv = ev_level ev"
  define ts where "ts = fst (getFormattedTime clk w)"
  define w1 where "w1 = snd (getFormattedTime clk w)"
  define r where "r = resized rt (estimate lv ts format) (ev_buf ev) w1"
  define line where "line = linePrefix lv ts @ msgBody rt format args @ [CHR 0x0A]"
  define w6 where "w6 = flushed (formatted rt lv ts format args r)"
  define w7 where "w7 = dispatched rt lv (Sprintf rt format args) w6"
  have "sl_bytes (heap w1 (ev_buf ev)) = []"
    using empty by (simp add: w1_def)
  from resized_empty [OF this, of rt "estimate lv ts format"]
  have prep: "sl_bytes (heap (snd r) (fst r)) = []" "trace (snd r) = trace w"
    "writers (snd r) = writers w"
    by (simp_all add: r_def w1_def)
  have t6: "trace w6 = trace w @ map (\<lambda>d. WriterWrite d line) (writers w)"
    using prep
    by (simp add: w6_def flushed_def formatted_def multiWriter_write_def line_def split_beta)
  have "quiet w6 w7"
    by (simp add: w7_def dispatched_def executeHooks_quiet)
  moreover have "quiet w7 (final (msgfEnd rt lv format args (ev_buf ev) w7))"
    by (rule msgfEnd_quiet)
  ultimately have "quiet w6 (final (msgfEnd rt lv format args (ev_buf ev) w7))"
    by (rule quiet_trans)
  then obtain rest where rest:
    "trace (final (msgfEnd rt lv format args (ev_buf ev) w7)) = trace w6 @ rest"
    "filter isWrite rest = []"
    by (auto simp add: quiet_def)
  have eq: "msgf rt clk (Some ev) format args w = msgfEnd rt lv format args (ev_buf ev) w7"
    by (simp add: msgf_stages w7_def w6_def r_def w1_def ts_def lv_def split_beta)
  show ?thesis
    using rest t6 by (simp add: eq line_def ts_def lv_def)
qed

lemma newEvent_passes:
  assumes "level w \<le> lv"
  obtains ev w' where "newEvent lv w = (Some ev, w')" "ev_level ev = lv"
    "sl_bytes (heap w' (ev_buf ev)) = []" "trace w' = trace w" "writers w' = writers w"
    "fst (getFormattedTime clk w') = fst (getFormattedTime clk w)"
proof -
  obtain buf w' where g: "getBuffer (bufSize w) w = (buf, w')"
    by (cases "getBuffer (bufSize w) w")
  have "newEvent lv w = (Some \<lparr> ev_level = lv, ev_buf = buf \<rparr>, w')"
    using assms by (simp add: newEvent_def g)
  moreover have "sl_bytes (heap w' buf) = []"
    using getBuffer_empty [of "bufSize w" w] by (simp add: g)
  moreover have "trace w' = trace w" "writers w' = writers w"
    using getBuffer_fields(1,2) [of "bufSize w" w] by (simp_all add: g)
  moreover have "fst (getFormattedTime clk w') = fst (getFormattedTime clk w)"
    using getBuffer_fields(5,6,7) [of "bufSize w" w] by (simp add: g gft_fst)
  ultimately show ?thesis using that by simp
qed

lemma emit_trace:
  assumes "level w \<le> lv"
  shows "\<exists>rest. trace (final (emit rt clk lv format args w)) =
           trace w @
           map (\<lambda>d. WriterWrite d
                  (linePrefix lv (fst (getFormattedTime clk w)) @
                   msgBody rt format args @ [CHR 0x0A]))
             (writers w) @ rest
         \<and> filter isWrite rest = []"
proof -
  obtain ev w' where ne: "newEvent lv w = (Some ev, w')" "ev_level ev = lv"
    "sl_bytes (heap w' (ev_buf ev)) = []" "trace w' = trace w" "writers w' = writers w"
    "fst (getFormattedTime clk w') = fst (getFormattedTime clk w)"
    using newEvent_passes [OF assms] by metis
  show ?thesis
    using msgf_trace [OF ne(3), of rt clk format args] ne by (simp add: emit_def)
qed

lemma emit_gated: "lv < level w \<Longrightarrow> emit rt clk lv format args w = Returns w"
  by (simp add: emit_def newEvent_def msgf_def)

subsection \<open>What an emission leaves in the timestamp cache\<close>





subsection \<open>Values of the new logger and small decimal numbers\<close>

lemma New_fields:
  "level New = INFO" "writers New = [Stdout]"
  "timeFormat New = ''2006-01-02 15:04:05.000 MST''"
  "hooks New = []" "wg New = 0" "maxHooks New = 100" "bufSize New = 1024" "pool New = []"
  "timeCache New = []" "workerPool New = \<lparr> jobs = [], workers = 10, stopped = False \<rparr>"
  "maxCacheSize New = 1000" "cleanupInProgress New = False" "lastCleanup New = 0"
  "bufPool New = []" "timeKey New = 0" "timeValue New = []" "heap New = (\<lambda>a. emptySlice)"
  "nextAddr New = 0" "trace New = []" "exitFunc New = OsExit" "panicFunc New = GoPanic"
  by (simp_all add: New_def)

lemma natToDec_small: "natToDec 42 = ''42''" "natToDec 100 = ''100''"
  by (simp_all add: natToDec.simps [of 42] natToDec.simps [of 4]
      natToDec.simps [of 100] natToDec.simps [of 10] natToDec.simps [of "Suc 0"])

lemma filledLogger_Suc: "filledLogger (Suc n) = snd (AddHook recorder 0 (filledLogger n))"
  by (simp add: filledLogger_def)

lemma filledLogger_fields:
  "n \<le> 100 \<Longrightarrow> maxHooks (filledLogger n) = 100 \<and> length (hooks (filledLogger n)) = n"
proof (induction n)
  case 0
  show ?case by (simp add: filledLogger_def New_fields)
next
  case (Suc n)
  then show ?case by (simp add: filledLogger_Suc AddHook_def)
qed

subsection \<open>The content of a destination\<close>

lemma sinkContent_append: "sinkContent d (a @ b) = sinkContent d a @ sinkContent d b"
  by (simp add: sinkContent_def)

lemma sinkContent_quiet: "filter isWrite rest = [] \<Longrightarrow> sinkContent d rest = []"
proof (induction rest)
  case Nil
  show ?case by (simp add: sinkContent_def)
next
  case (Cons e rest)
  then show ?case by (cases e) (simp_all add: sinkContent_def split: if_splits)
qed

lemma sinkContent_fanout:
  "d \<in> set ws \<Longrightarrow> line \<noteq> [] \<Longrightarrow> sinkContent d (map (\<lambda>x. WriterWrite x line) ws) \<noteq> []"
  by (induction ws) (auto simp add: sinkContent_def)

subsection \<open>Running the model on concrete inputs\<close>

lemmas run_defs =
  msgf_stages formatted_def flushed_def dispatched_def resized_def estimate_def Let_def
  getFormattedTime_def cleanupTimeCache_def clk0_def New_fields getBuffer_def pool_Get_def
  appendTo_def append_slice_def multiWriter_write_def msgfEnd_def putBuffer_def
  Level_defs levelColor_def levelColors_def Level_PaddedString_def paddedLevelStrings_def
  linePrefix_def msgBody_def color_defs goRuntime_def emptySlice_def nextslicecap_def
  emit_def newEvent_def SetLevel_def AddHook_def executeHooks_def submit_def
  wg_Wait_def stop_def Close_def workerStep_def hookJob_def callHook_def removeHook_def
  insertionSortCmpFunc_def hookCmp_def Stdout_def

lemma longMsg_length: "length longMsg = 1100"
  by (simp add: longMsg_def)

subsection \<open>C1: the one-argument path and the general formatter\<close>

text \<open>
  Claim C1 says the one-argument fast path writes what the general formatter would
  write. It does not: the path appends the text of the argument alone and drops the
  format string. For \<^verbatim>\<open>Info("value=%d", 42)\<close> on a logger at level \<open>DEBUG\<close> with one hook:
  the general formatter gives \<open>value=42\<close>, the body \<^verbatim>\<open>msgf\<close> builds is \<open>42\<close>, the line
  written to standard output ends in \<open>: 42\<close>, and the job queued for the hooks carries
  \<open>value=42\<close>, with which the worker then calls the hook once.
\<close>

theorem fast_path_drops_format:
  "Sprintf goRuntime ''value=%d'' [ArgInt 42] = ''value=42'' \<and>
   msgBody goRuntime ''value=%d'' [ArgInt 42] = ''42'' \<and>
   trace (final (Logger_Info goRuntime clk0 ''value=%d'' [ArgInt 42] demoLogger)) =
     [WriterWrite Stdout
        (colorGreen @ ''[INFO] '' @ colorReset @
         '' 2023-11-14 22:13:20.000 UTC: 42'' @ [CHR 0x0A])] \<and>
   jobs (workerPool (final (Logger_Info goRuntime clk0 ''value=%d'' [ArgInt 42] demoLogger)))
     = [(INFO, ''value=42'')] \<and>
   filter (\<lambda>e. \<not> isWrite e)
     (trace (workerStep goRuntime
        (final (Logger_Info goRuntime clk0 ''value=%d'' [ArgInt 42] demoLogger))))
     = [HookCall ''0xc000012340'' INFO ''value=42'']"
  by (simp add: Logger_Info_def demoLogger_def recorder_def run_defs itoa_def natToDec_small)

text \<open>
  What the three paths append: the format string itself without arguments, the bare
  text of a single string, integer, float or error argument, and the general
  formatter's result in every other case.
\<close>

lemma msgBody_paths:
  "msgBody rt format [] = format"
  "msgBody rt format [ArgString s] = s"
  "msgBody rt format [ArgInt i] = itoa (sint i)"
  "msgBody rt format [ArgInt64 i] = itoa (sint i)"
  "msgBody rt format [ArgFloat64 f] = FormatFloat f"
  "msgBody rt format [ArgError e] = e"
  "msgBody rt format [ArgOther ty txt] = Sprintf rt format [ArgOther ty txt]"
  "msgBody rt format (a # b # rest) = Sprintf rt format (a # b # rest)"
  by (simp_all add: msgBody_def)

subsection \<open>C2: the level gate\<close>

text \<open>
  Claim C2. For every level \<open>lv\<close> and threshold \<open>level w\<close>: an emission below the threshold
  returns with the world exactly as it was (nothing formatted, no buffer taken from the
  pool, no hook job queued, no termination action); and for every registered
  destination, the bytes it has received change with the emission if and only if the
  level is at or above the threshold. This holds for whatever way the call ends.
\<close>

theorem level_gate:
  "(lv < level w \<longrightarrow> emit rt clk lv format args w = Returns w) \<and>
   (\<forall>d\<in>set (writers w).
      (sinkContent d (trace (final (emit rt clk lv format args w))) \<noteq> sinkContent d (trace w))
        = (level w \<le> lv))"
proof (cases "lv < level w")
  case True
  then show ?thesis by (simp add: emit_gated)
next
  case False
  then have pass: "level w \<le> lv" by simp
  obtain rest where rest:
    "trace (final (emit rt clk lv format args w)) =
       trace w @
       map (\<lambda>d. WriterWrite d
              (linePrefix lv (fst (getFormattedTime clk w)) @ msgBody rt format args @ [CHR 0x0A]))
         (writers w) @ rest"
    "filter isWrite rest = []"
    using emit_trace [OF pass, of rt clk format args] by blast
  have "sinkContent d (trace (final (emit rt clk lv format args w))) \<noteq> sinkContent d (trace w)"
    if "d \<in> set (writers w)" for d
    using sinkContent_fanout [OF that,
        of "linePrefix lv (fst (getFormattedTime clk w)) @ msgBody rt format args @ [CHR 0x0A]"]
    by (simp add: rest sinkContent_append sinkContent_quiet)
  then show ?thesis using pass by simp
qed

text \<open>
  With the threshold at \<open>WARN\<close>, a \<open>DEBUG\<close> message leaves the logger and standard output
  as they were; a \<open>WARN\<close> and an \<open>ERROR\<close> message reach standard output.
\<close>

theorem level_gate_witness:
  "DEBUG < level (SetLevel WARN New) \<and>
   emit goRuntime clk0 DEBUG ''debug message'' [] (SetLevel WARN New)
     = Returns (SetLevel WARN New) \<and>
   Stdout \<in> set (writers (SetLevel WARN New)) \<and>
   sinkContent Stdout
       (trace (final (emit goRuntime clk0 DEBUG ''debug message'' [] (SetLevel WARN New))))
     = sinkContent Stdout (trace (SetLevel WARN New)) \<and>
   sinkContent Stdout
       (trace (final (emit goRuntime clk0 WARN ''warning message'' [] (SetLevel WARN New))))
     \<noteq> sinkContent Stdout (trace (SetLevel WARN New)) \<and>
   sinkContent Stdout
       (trace (final (emit goRuntime clk0 ERROR ''error message'' [] (SetLevel WARN New))))
     \<noteq> sinkContent Stdout (trace (SetLevel WARN New))"
  using level_gate [of DEBUG "SetLevel WARN New" goRuntime clk0 "''debug message''" "[]"]
    level_gate [of WARN "SetLevel WARN New" goRuntime clk0 "''warning message''" "[]"]
    level_gate [of ERROR "SetLevel WARN New" goRuntime clk0 "''error message''" "[]"]
  by (simp add: SetLevel_def New_fields Level_defs)

subsection \<open>C3: the capacity of the hook list\<close>

text \<open>
  Claim C3. When the hook list is at its capacity, \<^verbatim>\<open>AddHook\<close> returns the error and
  leaves the whole logger as it was; below capacity it returns no error and the only
  change is one record appended to the hooks. A new logger has capacity 100 and no
  hooks.
\<close>

theorem AddHook_capacity:
  "(maxHooks w \<le> length (hooks w) \<longrightarrow>
      fst (AddHook hook priority w) =
        Some (''maximum number of hooks ('' @ itoa (int (maxHooks w)) @ '') reached'') \<and>
      snd (AddHook hook priority w) = w) \<and>
   (length (hooks w) < maxHooks w \<longrightarrow>
      fst (AddHook hook priority w) = None \<and>
      snd (AddHook hook priority w) =
        w\<lparr> hooks := hooks w @
             [\<lparr> hook_fn = fcall hook, hook_priority = priority, hook_id = fptr hook \<rparr>] \<rparr> \<and>
      length (hooks (snd (AddHook hook priority w))) = length (hooks w) + 1) \<and>
   maxHooks New = 100 \<and> hooks New = []"
  by (simp add: AddHook_def New_def)

text \<open>
  After 100 registrations on a new logger the 101st is refused and the logger keeps its
  100 hooks; the 100th was accepted.
\<close>

theorem AddHook_capacity_witness:
  "maxHooks (filledLogger 100) \<le> length (hooks (filledLogger 100)) \<and>
   AddHook recorder 0 (filledLogger 100) =
     (Some ''maximum number of hooks (100) reached'', filledLogger 100) \<and>
   length (hooks (filledLogger 100)) = 100 \<and>
   length (hooks (filledLogger 99)) < maxHooks (filledLogger 99) \<and>
   fst (AddHook recorder 0 (filledLogger 99)) = None \<and>
   length (hooks (snd (AddHook recorder 0 (filledLogger 99)))) = 100"
proof -
  have a: "maxHooks (filledLogger 100) = 100" "length (hooks (filledLogger 100)) = 100"
    using filledLogger_fields [of 100] by simp_all
  have b: "maxHooks (filledLogger 99) = 100" "length (hooks (filledLogger 99)) = 99"
    using filledLogger_fields [of 99] by simp_all
  show ?thesis
    using AddHook_capacity [of "filledLogger 100" recorder 0]
      AddHook_capacity [of "filledLogger 99" recorder 0] a b
    by (simp add: itoa_def natToDec_small prod_eq_iff)
qed

subsection \<open>C4: removal of a failing hook\<close>

text \<open>
  Claim C4 says a hook whose callback returns an error is the one removed, and a hook
  returning \<^verbatim>\<open>nil\<close> stays. \<^verbatim>\<open>removeHook\<close> deletes the first record whose id equals the
  failing hook's id, and the id is the code pointer of the function, which two hooks
  can share. With two closures of one function literal registered, the first returning
  \<^verbatim>\<open>nil\<close> and the second an error, the pass after one message calls both, prints one
  diagnostic, and removes the first: the hook left in the registry is the failing one.
\<close>

theorem removeHook_hits_other_record:
  "map (\<lambda>h. (hook_id h, hook_fn h INFO ''test message'')) (hooks twoClosures)
     = [(''0x47b2c0'', None), (''0x47b2c0'', Some ''boom'')] \<and>
   filter (\<lambda>e. \<not> isWrite e)
     (trace (workerStep goRuntime
        (final (Logger_Info goRuntime clk0 ''test message'' [] twoClosures))))
     = [HookCall ''0x47b2c0'' INFO ''test message'',
        HookCall ''0x47b2c0'' INFO ''test message'',
        Stderr (''Hook error: boom'' @ [CHR 0x0A])] \<and>
   map (\<lambda>h. (hook_id h, hook_fn h INFO ''test message''))
     (hooks (workerStep goRuntime
        (final (Logger_Info goRuntime clk0 ''test message'' [] twoClosures))))
     = [(''0x47b2c0'', Some ''boom'')]"
  by (simp add: Logger_Info_def twoClosures_def quietClosure_def failingClosure_def run_defs)

text \<open>
  Beside C4. A pass calls every hook of the sorted copy once, in that order, and prints
  one diagnostic after each call that returns an error. When the ids in the registry
  are pairwise distinct (and the sort returns the elements it was given), the hooks
  left after the pass are exactly those whose callback returned \<^verbatim>\<open>nil\<close>, in their old
  order.
\<close>

lemma pass_trace:
  "trace (foldl (callHook lv msg) w hs) = trace w @ concat (map (callEffects lv msg) hs)"
  by (induction hs arbitrary: w)
    (simp_all add: callHook_def callEffects_def removeHook_def Let_def split: option.splits)

lemma hookJob_trace:
  "trace (hookJob rt lv msg w) =
     trace w @ concat (map (callEffects lv msg) (SortFunc rt hookCmp (hooks w)))"
  by (simp add: hookJob_def Let_def pass_trace)

lemma deleteFirst_distinct:
  "distinct (map hook_id hs) \<Longrightarrow> deleteFirst i hs = filter (\<lambda>x. hook_id x \<noteq> i) hs"
proof (induction hs)
  case Nil
  show ?case by simp
next
  case (Cons h hs)
  show ?case
  proof (cases "hook_id h = i")
    case True
    have "hook_id h \<notin> hook_id ` set hs" using Cons.prems by simp
    then have "\<forall>x\<in>set hs. hook_id x \<noteq> i" using True by blast
    then have "filter (\<lambda>x. hook_id x \<noteq> i) hs = hs" by (simp add: filter_id_conv)
    then show ?thesis using True by simp
  next
    case False
    then show ?thesis using Cons by simp
  qed
qed

lemma distinct_ids_filter:
  "distinct (map hook_id hs) \<Longrightarrow> distinct (map hook_id (filter P hs))"
  by (simp add: distinct_map_filter)

lemma callHook_hooks:
  "hooks (callHook lv msg w h) =
     (if failing lv msg h then deleteFirst (hook_id h) (hooks w) else hooks w)"
  by (simp add: callHook_def removeHook_def failing_def Let_def split: option.splits)

lemma pass_hooks:
  assumes "distinct (map hook_id (hooks w))"
  shows "hooks (foldl (callHook lv msg) w ps) =
           filter (\<lambda>x. \<forall>h\<in>set ps. failing lv msg h \<longrightarrow> hook_id x \<noteq> hook_id h) (hooks w)"
  using assms
proof (induction ps arbitrary: w)
  case Nil
  show ?case by simp
next
  case (Cons p ps)
  have d: "distinct (map hook_id (hooks (callHook lv msg w p)))"
    using Cons.prems by (simp add: callHook_hooks deleteFirst_distinct distinct_ids_filter)
  show ?case
    using Cons.IH [OF d] Cons.prems
    by (auto simp add: callHook_hooks deleteFirst_distinct intro: filter_cong)
qed

lemma pass_removes_failing:
  assumes ids: "distinct (map hook_id (hooks w))"
    and perm: "set (SortFunc rt hookCmp (hooks w)) = set (hooks w)"
  shows "hooks (hookJob rt lv msg w) = filter (\<lambda>h. hook_fn h lv msg = None) (hooks w)"
proof -
  have "hooks (hookJob rt lv msg w) =
      filter (\<lambda>x. \<forall>h\<in>set (hooks w). failing lv msg h \<longrightarrow> hook_id x \<noteq> hook_id h) (hooks w)"
    using pass_hooks [OF ids, of lv msg "SortFunc rt hookCmp (hooks w)"]
    by (simp add: hookJob_def Let_def perm)
  also have "\<dots> = filter (\<lambda>h. hook_fn h lv msg = None) (hooks w)"
  proof (rule filter_cong [OF refl])
    fix x assume x: "x \<in> set (hooks w)"
    have "hook_id x = hook_id h \<Longrightarrow> x = h" if "h \<in> set (hooks w)" for h
      using ids x that by (meson distinct_map inj_onD)
    then show "(\<forall>h\<in>set (hooks w). failing lv msg h \<longrightarrow> hook_id x \<noteq> hook_id h)
        = (hook_fn x lv msg = None)"
      using x by (auto simp add: failing_def)
  qed
  finally show ?thesis .
qed

lemma set_insertLeft: "set (insertLeft cmp x ys) = insert x (set ys)"
  by (induction ys) auto

lemma set_insertionSort: "set (insertionSortCmpFunc cmp xs) = set xs"
proof -
  have "set (foldl (\<lambda>prefix x. insertLeft cmp x prefix) acc xs) = set acc \<union> set xs" for acc
    by (induction xs arbitrary: acc) (auto simp add: set_insertLeft)
  then show ?thesis by (simp add: insertionSortCmpFunc_def)
qed

lemma pass_removes_failing_goRuntime:
  "distinct (map hook_id (hooks w)) \<Longrightarrow>
     hooks (hookJob goRuntime lv msg w) = filter (\<lambda>h. hook_fn h lv msg = None) (hooks w)"
  by (rule pass_removes_failing) (simp_all add: goRuntime_def set_insertionSort)

subsection \<open>C5: the termination actions\<close>

text \<open>
  Claim C5 says an emission at \<open>FATAL\<close> that passes the gate always reaches the exit
  action. On a logger that was closed and then given a hook, \<^verbatim>\<open>executeHooks\<close> adds 1 to
  the wait group and the stopped pool drops the job, so the counter never returns to
  zero: \<^verbatim>\<open>Fatal\<close> writes its line, then waits forever, and the exit action is not called.
\<close>

theorem fatal_after_close_blocks:
  "Close goRuntime New = Returns (stop New) \<and>
   isBlocks (Logger_Fatal goRuntime clk0 ''fatal message'' [] closedWithHook) \<and>
   trace (final (Logger_Fatal goRuntime clk0 ''fatal message'' [] closedWithHook)) =
     [WriterWrite Stdout
        (colorRed @ ''[FATAL]'' @ colorReset @
         '' 2023-11-14 22:13:20.000 UTC: fatal message'' @ [CHR 0x0A])] \<and>
   wg (final (Logger_Fatal goRuntime clk0 ''fatal message'' [] closedWithHook)) = 1"
  by (simp add: Logger_Fatal_def closedWithHook_def recorder_def isBlocks_def run_defs)

text \<open>
  Beside C5. On a logger whose pool runs and whose wait group counts exactly the
  queued jobs, an emission at \<open>FATAL\<close> that passes the gate does not wait forever: its
  last effect is the exit action with status 1, and by then the queue is empty, the
  counter is zero and the pool is stopped. The same holds at \<open>PANIC\<close> with the panic action
  carrying the general formatter's text. At every other level the call returns.
\<close>

lemma callHook_control [simp]:
  "workerPool (callHook lv msg w h) = workerPool w"
  "wg (callHook lv msg w h) = wg w"
  "exitFunc (callHook lv msg w h) = exitFunc w"
  "panicFunc (callHook lv msg w h) = panicFunc w"
  by (simp_all add: callHook_def removeHook_def Let_def split: option.splits)

lemma pass_control [simp]:
  "workerPool (foldl (callHook lv msg) w hs) = workerPool w"
  "wg (foldl (callHook lv msg) w hs) = wg w"
  "exitFunc (foldl (callHook lv msg) w hs) = exitFunc w"
  "panicFunc (foldl (callHook lv msg) w hs) = panicFunc w"
  by (induction hs arbitrary: w) simp_all

lemma hookJob_control [simp]:
  "workerPool (hookJob rt lv msg w) = workerPool w"
  "wg (hookJob rt lv msg w) = wg w - 1"
  "exitFunc (hookJob rt lv msg w) = exitFunc w"
  "panicFunc (hookJob rt lv msg w) = panicFunc w"
  by (simp_all add: hookJob_def Let_def)

lemma workerStep_balanced:
  assumes "balanced k w"
  shows "balanced k (workerStep rt w)"
    and "length (jobs (workerPool (workerStep rt w))) = length (jobs (workerPool w)) - 1"
    and "exitFunc (workerStep rt w) = exitFunc w"
    and "panicFunc (workerStep rt w) = panicFunc w"
  using assms by (auto simp add: workerStep_def balanced_def split: list.splits)

lemma workerSteps_balanced:
  assumes "balanced k w"
  shows "balanced k ((workerStep rt ^^ n) w)
    \<and> length (jobs (workerPool ((workerStep rt ^^ n) w))) = length (jobs (workerPool w)) - n
    \<and> exitFunc ((workerStep rt ^^ n) w) = exitFunc w
    \<and> panicFunc ((workerStep rt ^^ n) w) = panicFunc w"
proof (induction n)
  case 0
  show ?case using assms by simp
next
  case (Suc n)
  then show ?case
    using workerStep_balanced [of k "(workerStep rt ^^ n) w" rt] by simp
qed

lemma wg_Wait_balanced:
  assumes "balanced 0 w"
  obtains w' where "wg_Wait rt w = Some w'" "wg w' = 0" "jobs (workerPool w') = []"
    "\<not> stopped (workerPool w')" "exitFunc w' = exitFunc w" "panicFunc w' = panicFunc w"
proof -
  define w' where "w' = (workerStep rt ^^ length (jobs (workerPool w))) w"
  have b: "balanced 0 w'" "length (jobs (workerPool w')) = 0" "exitFunc w' = exitFunc w"
    "panicFunc w' = panicFunc w"
    using workerSteps_balanced [OF assms, where rt = rt and n = "length (jobs (workerPool w))"]
    by (simp_all add: w'_def)
  then have "wg w' = 0" "\<not> stopped (workerPool w')" by (simp_all add: balanced_def)
  moreover from this have "wg_Wait rt w = Some w'" by (simp add: wg_Wait_def w'_def Let_def)
  ultimately show ?thesis using that b by simp
qed

lemma executeHooks_balanced:
  assumes "balanced 0 w"
  shows "balanced 0 (executeHooks rt lv msg w)"
    and "exitFunc (executeHooks rt lv msg w) = exitFunc w"
    and "panicFunc (executeHooks rt lv msg w) = panicFunc w"
proof -
  define w1 where "w1 = w\<lparr> wg := wg w + 1 \<rparr>"
  have b1: "balanced 1 w1" using assms by (simp add: balanced_def w1_def)
  have e1: "exitFunc w1 = exitFunc w" "panicFunc w1 = panicFunc w" by (simp_all add: w1_def)
  define w2 where "w2 = (if workers (workerPool w1) * 2 \<le> length (jobs (workerPool w1))
                      then workerStep rt w1 else w1)"
  have b2: "balanced 1 w2" "exitFunc w2 = exitFunc w" "panicFunc w2 = panicFunc w"
    using workerStep_balanced [OF b1, of rt] b1 e1 by (simp_all add: w2_def)
  have eq: "executeHooks rt lv msg w =
      w2\<lparr> workerPool := (workerPool w2)\<lparr> jobs := jobs (workerPool w2) @ [(lv, msg)] \<rparr> \<rparr>"
    using b1 by (simp add: executeHooks_def submit_def Let_def w2_def w1_def balanced_def)
  show "balanced 0 (executeHooks rt lv msg w)"
    and "exitFunc (executeHooks rt lv msg w) = exitFunc w"
    and "panicFunc (executeHooks rt lv msg w) = panicFunc w"
    using b2 by (simp_all add: eq balanced_def)
qed

lemma stop_fields [simp]:
  "stopped (workerPool (stop w))" "jobs (workerPool (stop w)) = jobs (workerPool w)"
  "wg (stop w) = wg w" "exitFunc (stop w) = exitFunc w" "panicFunc (stop w) = panicFunc w"
  "trace (stop w) = trace w"
  by (simp_all add: stop_def)

lemma putBuffer_fields [simp]:
  "workerPool (putBuffer b w) = workerPool w" "wg (putBuffer b w) = wg w"
  "trace (putBuffer b w) = trace w"
  by (simp_all add: putBuffer_def split: option.splits)

lemma msgfEnd_fatal:
  assumes "balanced 0 w"
  shows "draining (msgfEnd rt FATAL format args b w) (Exit 1)"
proof -
  obtain w' where w': "wg_Wait rt w = Some w'" "wg w' = 0" "jobs (workerPool w') = []"
    "\<not> stopped (workerPool w')" "exitFunc w' = exitFunc w" "panicFunc w' = panicFunc w"
    using wg_Wait_balanced [OF assms] by metis
  show ?thesis
    using w' by (simp add: msgfEnd_def draining_def isBlocks_def Let_def split: exitfn.splits)
qed

lemma msgfEnd_panic:
  assumes "balanced 0 w"
  shows "draining (msgfEnd rt PANIC format args b w) (Panic (Sprintf rt format args))"
proof -
  obtain w' where w': "wg_Wait rt w = Some w'" "wg w' = 0" "jobs (workerPool w') = []"
    "\<not> stopped (workerPool w')" "exitFunc w' = exitFunc w" "panicFunc w' = panicFunc w"
    using wg_Wait_balanced [OF assms] by metis
  show ?thesis
    using w' by (simp add: msgfEnd_def draining_def isBlocks_def Let_def Level_defs
        split: panicfn.splits)
qed

lemma prepared_control:
  "workerPool (flushed (formatted rt lv ts format args (resized rt n b (snd (getFormattedTime clk w)))))
     = workerPool w"
  "wg (flushed (formatted rt lv ts format args (resized rt n b (snd (getFormattedTime clk w)))))
     = wg w"
  by (simp_all add: flushed_def formatted_def resized_def multiWriter_write_def appendTo_def
      getBuffer_def pool_Get_def getFormattedTime_def cleanupTimeCache_def Let_def split_beta
      split: list.splits)

lemma newEvent_control:
  "workerPool (snd (newEvent lv w)) = workerPool w" "wg (snd (newEvent lv w)) = wg w"
  by (simp_all add: newEvent_def getBuffer_def pool_Get_def split_beta split: list.splits)

lemma emit_terminal_drains:
  assumes gate: "level w \<le> lv" and bal: "balanced 0 w"
  shows "lv = FATAL \<Longrightarrow> draining (emit rt clk lv format args w) (Exit 1)"
    and "lv = PANIC \<Longrightarrow> draining (emit rt clk lv format args w) (Panic (Sprintf rt format args))"
proof -
  obtain ev w0 where ne: "newEvent lv w = (Some ev, w0)" "ev_level ev = lv"
    using gate by (simp add: newEvent_def split_beta)
  have b0: "balanced 0 w0"
    using bal newEvent_control [of lv w] by (simp add: ne balanced_def)
  define ts where "ts = fst (getFormattedTime clk w0)"
  define w6 where "w6 = flushed (formatted rt lv ts format args
      (resized rt (estimate lv ts format) (ev_buf ev) (snd (getFormattedTime clk w0))))"
  define w7 where "w7 = dispatched rt lv (Sprintf rt format args) w6"
  have "balanced 0 w6"
    using b0 by (simp add: w6_def balanced_def prepared_control)
  then have b7: "balanced 0 w7"
    by (simp add: w7_def dispatched_def executeHooks_balanced)
  have eq: "emit rt clk lv format args w = msgfEnd rt lv format args (ev_buf ev) w7"
    by (simp add: emit_def ne msgf_stages w7_def w6_def ts_def split_beta)
  show "draining (emit rt clk lv format args w) (Exit 1)" if "lv = FATAL"
    unfolding eq using that msgfEnd_fatal [OF b7] by simp
  show "draining (emit rt clk lv format args w) (Panic (Sprintf rt format args))" if "lv = PANIC"
    unfolding eq using that msgfEnd_panic [OF b7] by simp
qed

lemma emit_plain_returns:
  assumes "lv \<noteq> FATAL" "lv \<noteq> PANIC"
  shows "\<exists>w'. emit rt clk lv format args w = Returns w'"
proof (cases "lv < level w")
  case True
  then show ?thesis by (simp add: emit_gated)
next
  case False
  then show ?thesis
    using assms by (simp add: emit_def newEvent_def msgf_stages msgfEnd_def split_beta)
qed

subsection \<open>C6: the line and the fan-out\<close>




subsection \<open>C7: release of the buffer\<close>

text \<open>
  Claim C7 says the buffer the builder holds when \<^verbatim>\<open>msgf\<close> exits goes back to the pool
  on every path. The deferred \<^verbatim>\<open>putBuffer\<close> has its argument evaluated at the \<^verbatim>\<open>defer\<close>
  statement, before the resize. A message of 1100 bytes on a new logger: the event
  gets buffer 0, the estimate exceeds its capacity, buffer 1 replaces it and holds the
  line at the end, with capacity 1472, under the bound of 4096 for pooling. The pool
  afterwards holds buffer 0 alone.
\<close>

theorem resized_buffer_not_released:
  "fst (newEvent INFO New) = Some \<lparr> ev_level = INFO, ev_buf = 0 \<rparr> \<and>
   pool (final (Logger_Info goRuntime clk0 longMsg [] New)) = [0] \<and>
   sl_bytes (heap (final (Logger_Info goRuntime clk0 longMsg [] New)) 0) = [] \<and>
   sl_bytes (heap (final (Logger_Info goRuntime clk0 longMsg [] New)) 1) =
     colorGreen @ ''[INFO] '' @ colorReset @ '' 2023-11-14 22:13:20.000 UTC: '' @
     longMsg @ [CHR 0x0A] \<and>
   sl_cap (heap (final (Logger_Info goRuntime clk0 longMsg [] New)) 1) = 1472 \<and>
   bufSize (final (Logger_Info goRuntime clk0 longMsg [] New)) * 4 = 4096"
  by (simp add: Logger_Info_def run_defs longMsg_length growLoop.simps [of 1024])

subsection \<open>C8: the capacity of the replacement buffer\<close>

text \<open>
  Claim C8 says \<^verbatim>\<open>getBuffer(size)\<close> yields a buffer of capacity at least \<open>size\<close>. For a
  size between the buffer size and four times it, the buffer comes from the pool,
  whose buffers are made with the default capacity: \<^verbatim>\<open>getBuffer(2000)\<close> on a new logger
  yields capacity 1024. The same happens inside \<^verbatim>\<open>msgf\<close> for the message of 1100 bytes:
  the estimate is 1146 and the replacement has capacity 1024.
\<close>

theorem getBuffer_below_requested_size:
  "sl_cap (heap (snd (getBuffer 2000 New)) (fst (getBuffer 2000 New))) = 1024 \<and>
   estimate INFO ''2023-11-14 22:13:20.000 UTC'' longMsg = 1146 \<and>
   sl_cap (heap (snd (getBuffer 1146 (snd (getFormattedTime clk0 (snd (newEvent INFO New))))))
                (fst (getBuffer 1146 (snd (getFormattedTime clk0 (snd (newEvent INFO New)))))))
     = 1024"
  by (simp add: run_defs longMsg_length)

text \<open>Beside C8. Above four times the buffer size the buffer is made to measure.\<close>

lemma getBuffer_large:
  "bufSize w * 4 < n \<Longrightarrow>
     heap (snd (getBuffer n w)) (fst (getBuffer n w)) = \<lparr> sl_bytes = [], sl_cap = n \<rparr>"
  by (simp add: getBuffer_def)

subsection \<open>C9: the order of a dispatch pass\<close>

text \<open>
  Claim C9 says a pass calls the hooks in descending order of priority. The comparison
  \<^verbatim>\<open>b.priority - a.priority\<close> wraps around: with a hook of priority \<^verbatim>\<open>math.MinInt64\<close>
  registered before a hook of priority 1, comparing the second with the first gives
  \<open>2^63 - 1\<close>, not a negative number, so the sort leaves them as they are and the pass
  calls the hook of lowest priority first.
\<close>

theorem priority_subtraction_overflows:
  "map hook_priority (hooks lowFirst) = [- 9223372036854775808, 1] \<and>
   sint (hookCmp (hooks lowFirst ! 1) (hooks lowFirst ! 0)) = 9223372036854775807 \<and>
   map hook_priority (SortFunc goRuntime hookCmp (hooks lowFirst))
     = [- 9223372036854775808, 1] \<and>
   filter (\<lambda>e. \<not> isWrite e)
     (trace (workerStep goRuntime
        (final (Logger_Info goRuntime clk0 ''test message'' [] lowFirst))))
     = [HookCall ''0x47b100'' INFO ''test message'',
        HookCall ''0x47b200'' INFO ''test message'']"
  by (simp add: Logger_Info_def lowFirst_def lowHook_def highHook_def run_defs)

text \<open>
  Beside C9. The pass sorts a copy: the live list only loses records and keeps its
  order. For hooks whose priorities all lie in \<open>[-2^62, 2^62)\<close> the insertion sort (which
  is what \<^verbatim>\<open>slices.SortFunc\<close> runs on up to 12 elements) gives descending priorities and
  keeps hooks of equal priority in the order of registration.
\<close>

lemma subseq_deleteFirst: "subseq (deleteFirst i hs) hs"
  by (induction hs) auto

lemma pass_keeps_order: "subseq (hooks (foldl (callHook lv msg) w ps)) (hooks w)"
proof (induction ps arbitrary: w)
  case Nil
  show ?case by simp
next
  case (Cons p ps)
  have "subseq (hooks (callHook lv msg w p)) (hooks w)"
    by (simp add: callHook_hooks subseq_deleteFirst)
  with Cons.IH [of "callHook lv msg w p"] show ?case
    by (auto intro: subseq_order.order_trans)
qed

lemma hookJob_keeps_order: "subseq (hooks (hookJob rt lv msg w)) (hooks w)"
  by (simp add: hookJob_def Let_def pass_keeps_order)

lemma hookCmp_moderate:
  assumes "moderate a" "moderate b"
  shows "(sint (hookCmp a b) < 0) = (sint (hook_priority b) < sint (hook_priority a))"
proof -
  have "- (2 ^ 63) \<le> sint (hook_priority b) - sint (hook_priority a)"
    "sint (hook_priority b) - sint (hook_priority a) < 2 ^ 63"
    using assms by (simp_all add: moderate_def)
  then have "sint (hookCmp a b) = sint (hook_priority b) - sint (hook_priority a)"
    by (simp add: hookCmp_def sint_word_diff signed_take_bit_int_eq_self)
  then show ?thesis by simp
qed

lemma insertLeft_filter:
  fixes key :: "'a \<Rightarrow> int"
  assumes "\<And>y. y \<in> set r \<Longrightarrow> (sint (cmp x y) < 0) = (key y < key x)"
  shows "filter (\<lambda>h. key h = k) (insertLeft cmp x r) =
           (if key x = k then x # filter (\<lambda>h. key h = k) r else filter (\<lambda>h. key h = k) r)"
  using assms
proof (induction r)
  case Nil
  show ?case by simp
next
  case (Cons y ys)
  have IH: "filter (\<lambda>h. key h = k) (insertLeft cmp x ys) =
      (if key x = k then x # filter (\<lambda>h. key h = k) ys else filter (\<lambda>h. key h = k) ys)"
    using Cons by simp
  have c: "(sint (cmp x y) < 0) = (key y < key x)" using Cons.prems by simp
  show ?case
  proof (cases "key y < key x")
    case True
    then have "key y \<noteq> key x" by simp
    then show ?thesis using True c IH by auto
  next
    case False
    then show ?thesis using c by simp
  qed
qed

lemma insertLeft_sorted:
  fixes key :: "'a \<Rightarrow> int"
  assumes "\<And>y. y \<in> set r \<Longrightarrow> (sint (cmp x y) < 0) = (key y < key x)"
    and "sorted_wrt (\<lambda>a b. key a \<le> key b) r"
  shows "sorted_wrt (\<lambda>a b. key a \<le> key b) (insertLeft cmp x r)"
  using assms
proof (induction r)
  case Nil
  show ?case by simp
next
  case (Cons y ys)
  show ?case
  proof (cases "key y < key x")
    case True
    have "sorted_wrt (\<lambda>a b. key a \<le> key b) (insertLeft cmp x ys)"
      using Cons by simp
    moreover have "\<forall>z\<in>set (insertLeft cmp x ys). key y \<le> key z"
      using Cons.prems(2) True by (auto simp add: set_insertLeft)
    ultimately show ?thesis using True Cons.prems(1) by simp
  next
    case False
    then show ?thesis using Cons.prems by auto
  qed
qed

lemma insertion_fold:
  fixes key :: "'a \<Rightarrow> int"
  assumes cmp: "\<And>a b. P a \<Longrightarrow> P b \<Longrightarrow> (sint (cmp a b) < 0) = (key b < key a)"
    and "\<forall>x\<in>set xs. P x" "\<forall>x\<in>set acc. P x"
    and "sorted_wrt (\<lambda>a b. key a \<le> key b) acc"
  shows "sorted_wrt (\<lambda>a b. key a \<le> key b) (foldl (\<lambda>prefix x. insertLeft cmp x prefix) acc xs)
    \<and> (\<forall>k. filter (\<lambda>h. key h = k) (rev (foldl (\<lambda>prefix x. insertLeft cmp x prefix) acc xs))
          = filter (\<lambda>h. key h = k) (rev acc @ xs))"
  using assms(2-)
proof (induction xs arbitrary: acc)
  case Nil
  then show ?case by simp
next
  case (Cons x xs)
  have c: "(sint (cmp x y) < 0) = (key y < key x)" if "y \<in> set acc" for y
    using cmp [of x y] Cons.prems that by simp
  have s: "sorted_wrt (\<lambda>a b. key a \<le> key b) (insertLeft cmp x acc)"
    using insertLeft_sorted [of acc cmp x key] c Cons.prems by simp
  have p: "\<forall>y\<in>set (insertLeft cmp x acc). P y"
    using Cons.prems by (simp add: set_insertLeft)
  have f: "filter (\<lambda>h. key h = k) (rev (insertLeft cmp x acc)) =
      filter (\<lambda>h. key h = k) (rev acc @ [x])" for k
    using insertLeft_filter [of acc cmp x key k] c by (simp add: rev_filter [symmetric])
  have "\<forall>x\<in>set xs. P x" using Cons.prems by simp
  from Cons.IH [OF this p s] f show ?case by simp
qed

lemma insertionSort_stable:
  fixes key :: "'a \<Rightarrow> int"
  assumes "\<And>a b. P a \<Longrightarrow> P b \<Longrightarrow> (sint (cmp a b) < 0) = (key b < key a)"
    and "\<forall>x\<in>set xs. P x"
  shows "sorted_wrt (\<lambda>a b. key b \<le> key a) (insertionSortCmpFunc cmp xs)"
    and "filter (\<lambda>h. key h = k) (insertionSortCmpFunc cmp xs) = filter (\<lambda>h. key h = k) xs"
proof -
  have r: "sorted_wrt (\<lambda>a b. key a \<le> key b) (foldl (\<lambda>prefix x. insertLeft cmp x prefix) [] xs)
    \<and> (\<forall>k. filter (\<lambda>h. key h = k) (rev (foldl (\<lambda>prefix x. insertLeft cmp x prefix) [] xs))
          = filter (\<lambda>h. key h = k) (rev [] @ xs))"
    by (rule insertion_fold [where P = P]) (use assms in simp_all)
  show "sorted_wrt (\<lambda>a b. key b \<le> key a) (insertionSortCmpFunc cmp xs)"
    using r by (simp add: insertionSortCmpFunc_def sorted_wrt_rev)
  show "filter (\<lambda>h. key h = k) (insertionSortCmpFunc cmp xs) = filter (\<lambda>h. key h = k) xs"
    using r by (simp add: insertionSortCmpFunc_def)
qed

lemma pass_order_moderate:
  assumes "\<forall>h\<in>set hs. moderate h"
  shows "sorted_wrt (\<lambda>a b. sint (hook_priority b) \<le> sint (hook_priority a))
           (SortFunc goRuntime hookCmp hs)"
    and "filter (\<lambda>h. sint (hook_priority h) = k) (SortFunc goRuntime hookCmp hs)
           = filter (\<lambda>h. sint (hook_priority h) = k) hs"
  using insertionSort_stable(1) [where P = moderate and cmp = hookCmp
      and key = "\<lambda>h. sint (hook_priority h)" and xs = hs]
    insertionSort_stable(2) [where P = moderate and cmp = hookCmp
      and key = "\<lambda>h. sint (hook_priority h)" and xs = hs and k = k]
    hookCmp_moderate assms
  by (simp_all add: goRuntime_def)

subsection \<open>C10: rendering a level never fails\<close>

text \<open>
  Claim C10. \<^verbatim>\<open>Level.String\<close> and \<^verbatim>\<open>Level.PaddedString\<close> are defined on every integer; for
  every value outside \<open>DEBUG .. PANIC\<close> the first gives \<open>UNKNOWN\<close> and the second, whose
  map lookup is guarded, gives \<open>[UNKNOWN]\<close>.
\<close>

theorem Level_rendering_total:
  "l < DEBUG \<or> PANIC < l \<Longrightarrow>
     Level_String l = ''UNKNOWN'' \<and> Level_PaddedString l = ''[UNKNOWN]''"
  by (auto simp add: Level_String_def Level_PaddedString_def paddedLevelStrings_def Level_defs)

theorem Level_rendering_total_witness:
  "(7 < DEBUG \<or> PANIC < 7) \<and>
   Level_String 7 = ''UNKNOWN'' \<and> Level_PaddedString 7 = ''[UNKNOWN]'' \<and>
   (- 1 < DEBUG \<or> PANIC < - 1) \<and>
   Level_String (- 1) = ''UNKNOWN'' \<and> Level_PaddedString (- 1) = ''[UNKNOWN]''"
  using Level_rendering_total [of 7] Level_rendering_total [of "- 1"]
  by (simp add: Level_defs)

end
